theory Spec2Isabelle
  imports Main
begin

section \<open>Strings of the source language\<close>

text \<open>
  The routes are TypeScript; their strings are sequences of UTF-16 code units. The
  embedding uses \<^typ>\<open>string\<close>, whose characters are the code units U+0000 to U+00FF
  (Latin-1), which covers the Spanish lexicon of the parser (o acute is \<open>CHR 0xF3\<close>,
  i acute is \<open>CHR 0xED\<close>, a acute is \<open>CHR 0xE1\<close>). On that range the built-ins used by the
  source are the functions below: white space (\<open>\s\<close> and \<open>trim\<close>) is TAB, LF, VT, FF, CR,
  SPACE and NBSP; \<open>\d\<close> is an ASCII digit; \<open>\w\<close> is an ASCII letter, digit or underscore;
  \<open>toLowerCase\<close> maps character by character.
\<close>

definition is_space :: "char \<Rightarrow> bool" where
  "is_space c = (c \<in> set [CHR 0x09, CHR 0x0A, CHR 0x0B, CHR 0x0C, CHR 0x0D, CHR '' '', CHR 0xA0])"

definition is_digit :: "char \<Rightarrow> bool" where
  "is_digit c = (c \<in> set ''0123456789'')"

definition is_word :: "char \<Rightarrow> bool" where
  "is_word c = (c \<in> set ''abcdefghijklmnopqrstuvwxyzABCDEFGHIJKLMNOPQRSTUVWXYZ0123456789_'')"

definition lower_char :: "char \<Rightarrow> char" where
  "lower_char c =
     (let n = (of_char c :: nat)
      in if (65 \<le> n \<and> n \<le> 90) \<or> (192 \<le> n \<and> n \<le> 222 \<and> n \<noteq> 215)
         then char_of (n + 32) else c)"

definition toLowerCase :: "string \<Rightarrow> string" where
  "toLowerCase s = map lower_char s"

definition trim :: "string \<Rightarrow> string" where
  "trim s = rev (dropWhile is_space (rev (dropWhile is_space s)))"

text \<open>\<open>s.startsWith(k)\<close>, the test behind \<open>includes\<close>, \<open>indexOf\<close> and an anchored pattern.\<close>

primrec startsWith :: "string \<Rightarrow> string \<Rightarrow> bool" where
  "startsWith s [] = True"
| "startsWith s (k # ks) = (case s of [] \<Rightarrow> False | c # cs \<Rightarrow> c = k \<and> startsWith cs ks)"

primrec str_includes :: "string \<Rightarrow> string \<Rightarrow> bool" where
  "str_includes [] k = (k = [])"
| "str_includes (c # cs) k = (startsWith (c # cs) k \<or> str_includes cs k)"

text \<open>\<open>indexOf\<close> and \<open>lastIndexOf\<close> answer \<open>-1\<close> when there is no occurrence.\<close>

primrec indexOf_from :: "string \<Rightarrow> string \<Rightarrow> nat option" where
  "indexOf_from [] k = (if k = [] then Some 0 else None)"
| "indexOf_from (c # cs) k =
     (if startsWith (c # cs) k then Some 0 else map_option Suc (indexOf_from cs k))"

definition indexOf :: "string \<Rightarrow> string \<Rightarrow> int" where
  "indexOf s k = (case indexOf_from s k of None \<Rightarrow> - 1 | Some i \<Rightarrow> int i)"

primrec lastIndexOf_from :: "string \<Rightarrow> string \<Rightarrow> nat option" where
  "lastIndexOf_from [] k = (if k = [] then Some 0 else None)"
| "lastIndexOf_from (c # cs) k =
     (case lastIndexOf_from cs k of
        Some i \<Rightarrow> Some (Suc i)
      | None \<Rightarrow> if startsWith (c # cs) k then Some 0 else None)"

definition lastIndexOf :: "string \<Rightarrow> string \<Rightarrow> int" where
  "lastIndexOf s k = (case lastIndexOf_from s k of None \<Rightarrow> - 1 | Some i \<Rightarrow> int i)"

text \<open>\<open>substring\<close> clamps both indices to the string and swaps them when out of order.\<close>

definition clamp_index :: "string \<Rightarrow> int \<Rightarrow> nat" where
  "clamp_index s i = min (nat i) (length s)"

definition substring :: "string \<Rightarrow> int \<Rightarrow> int \<Rightarrow> string" where
  "substring s a b =
     (let a' = clamp_index s a; b' = clamp_index s b
      in take (max a' b' - min a' b') (drop (min a' b') s))"

definition substring_from :: "string \<Rightarrow> int \<Rightarrow> string" where
  "substring_from s a = drop (clamp_index s a) s"

text \<open>\<open>xs.join(sep)\<close>.\<close>

fun join :: "string \<Rightarrow> string list \<Rightarrow> string" where
  "join sep [] = []"
| "join sep [x] = x"
| "join sep (x # y # ys) = x @ sep @ join sep (y # ys)"

text \<open>\<open>text.split('\n')\<close>: the pieces between line feeds; an empty text gives one empty piece.\<close>

primrec split_nl :: "string \<Rightarrow> string list" where
  "split_nl [] = [[]]"
| "split_nl (c # cs) =
     (if c = CHR 0x0A then [] # split_nl cs
      else (case split_nl cs of [] \<Rightarrow> [[c]] | l # ls \<Rightarrow> (c # l) # ls))"

text \<open>\<open>s.replace(/\s+/g, ' ')\<close>: every maximal run of white space becomes one space.\<close>

function collapse_ws :: "string \<Rightarrow> string" where
  "collapse_ws [] = []"
| "collapse_ws (c # cs) =
     (if is_space c then CHR '' '' # collapse_ws (dropWhile is_space cs)
      else c # collapse_ws cs)"
  by pat_completeness auto
termination
  by (relation "measure length") (auto simp: less_Suc_eq_le length_dropWhile_le)

text \<open>
  \<open>s.split(/\s+/)\<close>: the pieces between maximal runs of white space. A leading or trailing
  run gives an empty first or last piece, and the empty string gives one empty piece.
\<close>

function split_ws :: "string \<Rightarrow> string list" where
  "split_ws s =
     (let w = takeWhile (\<lambda>c. \<not> is_space c) s; r = dropWhile (\<lambda>c. \<not> is_space c) s
      in if r = [] then [w] else w # split_ws (dropWhile is_space r))"
  by pat_completeness auto
termination
proof (relation "measure length")
  show "wf (measure length)" by simp
next
  fix s :: string and w r
  assume r: "r = dropWhile (\<lambda>c. \<not> is_space c) s" and ne: "r \<noteq> []"
  from ne obtain c cs where rc: "r = c # cs" by (cases r) auto
  with r have "is_space c" by (metis dropWhile_eq_Cons_conv)
  hence "length (dropWhile is_space r) \<le> length cs"
    by (simp add: rc length_dropWhile_le)
  moreover have "length r \<le> length s" by (simp add: r length_dropWhile_le)
  ultimately show "(dropWhile is_space r, s) \<in> measure length" by (simp add: rc)
qed

declare split_ws.simps [simp del]

section \<open>The row parser\<close>

text \<open>
  The table core of the single-day route (\<open>/api/prices\<close>): \<open>parseTableRow\<close>,
  \<open>isNewSection\<close>, \<open>extractPrices\<close> and \<open>extractDate\<close>.
\<close>

record ProductPrice =
  name :: string
  presentation :: string
  quantity :: string
  unit :: string
  extraQualityPrice :: string
  firstQualityPrice :: string
  unitPrice :: string
  previousDayVariation :: string

text \<open>The character class \<open>[\d.,]\<close> of the price pattern.\<close>

definition is_price_char :: "char \<Rightarrow> bool" where
  "is_price_char c = (is_digit c \<or> c = CHR ''.'' \<or> c = CHR '','')"

text \<open>
  All matches of \<open>/\$[\d.,]+/g\<close>, left to right: a dollar sign and the longest run of
  price characters after it, which must not be empty; the search resumes after a match.
\<close>

function price_matches :: "string \<Rightarrow> string list" where
  "price_matches [] = []"
| "price_matches (c # cs) =
     (if c = CHR ''$'' \<and> takeWhile is_price_char cs \<noteq> []
      then (c # takeWhile is_price_char cs) # price_matches (dropWhile is_price_char cs)
      else price_matches cs)"
  by pat_completeness auto
termination
  by (relation "measure length") (auto simp: less_Suc_eq_le length_dropWhile_le)

text \<open>\<open>s.match(pricePattern)\<close> with the \<open>g\<close> flag is \<open>null\<close> when nothing matches.\<close>

definition match_prices :: "string \<Rightarrow> string list option" where
  "match_prices s = (case price_matches s of [] \<Rightarrow> None | m # ms \<Rightarrow> Some (m # ms))"

text \<open>\<open>price.replace(/[$,.]/g, '')\<close> and the test on what is left.\<close>

definition digitsOnly :: "string \<Rightarrow> string" where
  "digitsOnly price = filter (\<lambda>c. c \<notin> set ''$,.'') price"

definition valid_price :: "string \<Rightarrow> bool" where
  "valid_price price = (4 \<le> length (digitsOnly price))"

text \<open>\<open>price.replace('$', '').trim()\<close>: a string pattern replaces the first occurrence only.\<close>

definition cleanPrice :: "string \<Rightarrow> string" where
  "cleanPrice price = trim (remove1 (CHR ''$'') price)"

text \<open>\<open>/^\d+$/.test(q)\<close>.\<close>

definition all_digits :: "string \<Rightarrow> bool" where
  "all_digits q = (q \<noteq> [] \<and> list_all is_digit q)"

definition normalize_line :: "string \<Rightarrow> string" where
  "normalize_line line = trim (collapse_ws line)"

text \<open>\<open>xs.slice(-3)\<close>.\<close>

definition slice_last3 :: "'a list \<Rightarrow> 'a list" where
  "slice_last3 xs = drop (length xs - 3) xs"

text \<open>\<open>x || d\<close> on strings: the empty string is falsy.\<close>

definition or_else :: "string \<Rightarrow> string \<Rightarrow> string" where
  "or_else x d = (if x = [] then d else x)"

definition parseTableRow :: "string \<Rightarrow> ProductPrice option" where
  "parseTableRow line =
     (let normalized = normalize_line line;
          priceMatches = match_prices normalized;
          validPrices = map_option (filter valid_price) priceMatches
      in case validPrices of
           None \<Rightarrow> None
         | Some vp \<Rightarrow>
             if length vp < 3 then None
             else
               let lastThreePrices = slice_last3 vp;
                   firstPriceIndex = indexOf normalized (lastThreePrices ! 0)
               in if firstPriceIndex = - 1 then None
                  else
                    let beforePrices = trim (substring normalized 0 firstPriceIndex);
                        beforeParts = split_ws beforePrices;
                        lastPriceIndex = lastIndexOf normalized (lastThreePrices ! 2);
                        afterLastPrice =
                          trim (substring_from normalized
                                  (lastPriceIndex + int (length (lastThreePrices ! 2))));
                        variation = or_else afterLastPrice []
                    in if length beforeParts < 4 then None
                       else
                         let n = length beforeParts;
                             unit' = beforeParts ! (n - 1);
                             quantity' = beforeParts ! (n - 2);
                             presentation' = beforeParts ! (n - 3);
                             name' = join '' '' (take (n - 3) beforeParts)
                         in if name' = [] \<or> presentation' = [] \<or> \<not> all_digits quantity'
                               \<or> unit' = []
                            then None
                            else Some \<lparr>name = trim name',
                                       presentation = trim presentation',
                                       quantity = trim quantity',
                                       unit = trim unit',
                                       extraQualityPrice =
                                         CHR ''$'' # cleanPrice (lastThreePrices ! 0),
                                       firstQualityPrice =
                                         CHR ''$'' # cleanPrice (lastThreePrices ! 1),
                                       unitPrice =
                                         CHR ''$'' # cleanPrice (lastThreePrices ! 2),
                                       previousDayVariation =
                                         or_else (trim variation) ''N/A''\<rparr>)"

section \<open>The table scanner\<close>

text \<open>
  \<open>pattern.test(line)\<close> for an anchored, case-insensitive pattern \<open>/^word/i\<close> whose word is
  written in lower case: the line starts with the word, whatever the case of its letters.
\<close>

definition test_anchored_ci :: "string \<Rightarrow> string \<Rightarrow> bool" where
  "test_anchored_ci word line = startsWith (toLowerCase line) word"

definition sectionIndicators :: "string list" where
  "sectionIndicators =
     [''p'' @ [CHR 0xE1] @ ''gina'', ''total'', ''resumen'', ''nota'', ''fuente'']"

definition isNewSection :: "string \<Rightarrow> bool" where
  "isNewSection line = list_ex (\<lambda>pattern. test_anchored_ci pattern line) sectionIndicators"

definition headerKeywords :: "string list" where
  "headerKeywords =
     [''nombre'', ''presentaci'' @ [CHR 0xF3] @ ''n'', ''cantidad'', ''unidad'', ''medida'',
      ''precio'', ''calidad'', ''extra'', ''primera'', ''unidad'',
      ''variaci'' @ [CHR 0xF3] @ ''n'', ''d'' @ [CHR 0xED] @ ''a'', ''anterior'']"

definition requiredHeaderWords :: "string list" where
  "requiredHeaderWords =
     [''nombre'', ''presentaci'' @ [CHR 0xF3] @ ''n'', ''cantidad'', ''precio'']"

record scan_state =
  inTable :: bool
  headerFound :: bool
  headerLines :: "string list"
  productos :: "ProductPrice list"

definition init_state :: scan_state where
  "init_state = \<lparr>inTable = False, headerFound = False, headerLines = [], productos = []\<rparr>"

definition hasHeaderKeyword :: "string \<Rightarrow> bool" where
  "hasHeaderKeyword originalLine =
     list_ex (\<lambda>keyword. str_includes (toLowerCase originalLine) keyword) headerKeywords"

text \<open>The quorum test on the collected header lines: three of the four required words.\<close>

definition foundRequiredWords :: "string list \<Rightarrow> string list" where
  "foundRequiredWords hl =
     filter (\<lambda>word. str_includes (toLowerCase (join '' '' hl)) word) requiredHeaderWords"

definition header_quorum :: "string list \<Rightarrow> bool" where
  "header_quorum hl = (3 \<le> length (foundRequiredWords hl))"

text \<open>The second half of the loop body: a line seen while the table is open.\<close>

definition process_row :: "scan_state \<Rightarrow> string \<Rightarrow> scan_state" where
  "process_row s originalLine =
     (if headerFound s \<and> inTable s then
        if hasHeaderKeyword originalLine \<and> 0 < length (productos s) then s
        else (case parseTableRow originalLine of
                Some row \<Rightarrow> s\<lparr>productos := productos s @ [row]\<rparr>
              | None \<Rightarrow>
                  if length originalLine = 0 \<or> isNewSection originalLine
                  then s\<lparr>inTable := False\<rparr> else s)
      else s)"

text \<open>One iteration of the loop over the lines.\<close>

definition scan_line :: "scan_state \<Rightarrow> string \<Rightarrow> scan_state" where
  "scan_line s originalLine =
     (if hasHeaderKeyword originalLine \<and> \<not> headerFound s then
        (let s1 = s\<lparr>headerLines := headerLines s @ [originalLine]\<rparr>
         in if header_quorum (headerLines s1)
            then s1\<lparr>headerFound := True, inTable := True\<rparr>
            else process_row s1 originalLine)
      else if headerFound s \<and> \<not> inTable s
        then process_row (s\<lparr>headerLines := []\<rparr>) originalLine
      else process_row s originalLine)"

definition text_lines :: "string \<Rightarrow> string list" where
  "text_lines text = filter (\<lambda>line. 0 < length line) (map trim (split_nl text))"

definition scan :: "scan_state \<Rightarrow> string list \<Rightarrow> scan_state" where
  "scan s ls = foldl scan_line s ls"

definition extractPrices :: "string \<Rightarrow> ProductPrice list" where
  "extractPrices text = productos (scan init_state (text_lines text))"

section \<open>The date helper\<close>

text \<open>
  A pattern is matched by backtracking: each piece answers the ways it can match at the
  front of the input, the preferred (greedy) one first, each with the input left over.
  The match at a position is the first way that lets the whole pattern match, and
  \<open>text.match(pattern)\<close> without the \<open>g\<close> flag is the match at the leftmost position
  that has one.
\<close>

text \<open>\<open>(\d{1,2})\<close>: two digits, else one.\<close>

definition digits_1_2 :: "string \<Rightarrow> (string \<times> string) list" where
  "digits_1_2 s =
     (if 2 \<le> length s \<and> list_all is_digit (take 2 s) then [(take 2 s, drop 2 s)] else [])
     @ (if 1 \<le> length s \<and> list_all is_digit (take 1 s) then [(take 1 s, drop 1 s)] else [])"

text \<open>\<open>(\d{4})\<close>.\<close>

definition digits_4 :: "string \<Rightarrow> (string \<times> string) list" where
  "digits_4 s =
     (if 4 \<le> length s \<and> list_all is_digit (take 4 s) then [(take 4 s, drop 4 s)] else [])"

text \<open>A literal, compared exactly or without regard to case (the \<open>i\<close> flag).\<close>

definition lit :: "string \<Rightarrow> string \<Rightarrow> string list" where
  "lit w s = (if startsWith s w then [drop (length w) s] else [])"

definition lit_ci :: "string \<Rightarrow> string \<Rightarrow> string list" where
  "lit_ci w s = (if startsWith (toLowerCase s) w then [drop (length w) s] else [])"

text \<open>\<open>\s+\<close> and \<open>(\w+)\<close>: the longest run first, then every shorter one down to one character.\<close>

definition plus_class :: "(char \<Rightarrow> bool) \<Rightarrow> string \<Rightarrow> (string \<times> string) list" where
  "plus_class P s =
     map (\<lambda>k. (take k s, drop k s)) (rev [1 ..< Suc (length (takeWhile P s))])"

text \<open>\<open>/(\d{1,2})\/(\d{1,2})\/(\d{4})/\<close> at the front of the input: the three groups.\<close>

definition dmy_here :: "string \<Rightarrow> (string \<times> string \<times> string) list" where
  "dmy_here s =
     concat (map (\<lambda>(g1, r1).
       concat (map (\<lambda>r2.
         concat (map (\<lambda>(g2, r3).
           concat (map (\<lambda>r4.
             map (\<lambda>(g3, r5). (g1, g2, g3)) (digits_4 r4))
           (lit ''/'' r3)))
         (digits_1_2 r2)))
       (lit ''/'' r1)))
     (digits_1_2 s))"

text \<open>\<open>/(\d{4})-(\d{1,2})-(\d{1,2})/\<close> at the front of the input: the whole match.\<close>

definition ymd_here :: "string \<Rightarrow> string list" where
  "ymd_here s =
     concat (map (\<lambda>(g1, r1).
       concat (map (\<lambda>r2.
         concat (map (\<lambda>(g2, r3).
           concat (map (\<lambda>r4.
             map (\<lambda>(g3, r5). g1 @ ''-'' @ g2 @ ''-'' @ g3) (digits_1_2 r4))
           (lit ''-'' r3)))
         (digits_1_2 r2)))
       (lit ''-'' r1)))
     (digits_4 s))"

text \<open>\<open>/(\d{1,2})\s+de\s+(\w+)\s+de\s+(\d{4})/i\<close> at the front of the input: the three groups.\<close>

definition long_here :: "string \<Rightarrow> (string \<times> string \<times> string) list" where
  "long_here s =
     concat (map (\<lambda>(g1, r1).
       concat (map (\<lambda>(w1, r2).
         concat (map (\<lambda>r3.
           concat (map (\<lambda>(w2, r4).
             concat (map (\<lambda>(g2, r5).
               concat (map (\<lambda>(w3, r6).
                 concat (map (\<lambda>r7.
                   concat (map (\<lambda>(w4, r8).
                     map (\<lambda>(g3, r9). (g1, g2, g3)) (digits_4 r8))
                   (plus_class is_space r7)))
                 (lit_ci ''de'' r6)))
               (plus_class is_space r5)))
             (plus_class is_word r4)))
           (plus_class is_space r3)))
         (lit_ci ''de'' r2)))
       (plus_class is_space r1)))
     (digits_1_2 s))"

primrec first_match :: "(string \<Rightarrow> 'a list) \<Rightarrow> string \<Rightarrow> 'a option" where
  "first_match here [] = (case here [] of [] \<Rightarrow> None | m # ms \<Rightarrow> Some m)"
| "first_match here (c # cs) =
     (case here (c # cs) of [] \<Rightarrow> first_match here cs | m # ms \<Rightarrow> Some m)"

text \<open>\<open>s.padStart(2, '0')\<close>.\<close>

definition padStart2 :: "string \<Rightarrow> string" where
  "padStart2 s = replicate (2 - length s) (CHR ''0'') @ s"

text \<open>
  The loop over the three patterns. A match of the first returns the reordered groups, a
  match of the second returns the matched text, and a match of the third falls through
  both branches of the loop body, so the function goes on to its final \<open>return null\<close>.
\<close>

definition extractDate :: "string \<Rightarrow> string option" where
  "extractDate text =
     (case first_match dmy_here text of
        Some (d, m, y) \<Rightarrow> Some (y @ ''-'' @ padStart2 m @ ''-'' @ padStart2 d)
      | None \<Rightarrow>
          (case first_match ymd_here text of
             Some whole \<Rightarrow> Some whole
           | None \<Rightarrow>
               (case first_match long_here text of
                  Some (d, month, y) \<Rightarrow> None
                | None \<Rightarrow> None)))"

section \<open>The range route\<close>

text \<open>
  The range route carries its own copy of the table core. The copies are embedded
  separately, each from its own file, with the prefix \<open>history\<close>.
\<close>

definition history_parseTableRow :: "string \<Rightarrow> ProductPrice option" where
  "history_parseTableRow line =
     (let normalized = trim (collapse_ws line);
          priceMatches = match_prices normalized;
          validPrices = map_option (filter (\<lambda>price. 4 \<le> length (digitsOnly price))) priceMatches
      in case validPrices of
           None \<Rightarrow> None
         | Some vp \<Rightarrow>
             if length vp < 3 then None
             else
               let lastThreePrices = slice_last3 vp;
                   firstPriceIndex = indexOf normalized (lastThreePrices ! 0)
               in if firstPriceIndex = - 1 then None
                  else
                    let beforePrices = trim (substring normalized 0 firstPriceIndex);
                        beforeParts = split_ws beforePrices;
                        lastPriceIndex = lastIndexOf normalized (lastThreePrices ! 2);
                        afterLastPrice =
                          trim (substring_from normalized
                                  (lastPriceIndex + int (length (lastThreePrices ! 2))));
                        variation = or_else afterLastPrice []
                    in if length beforeParts < 4 then None
                       else
                         let n = length beforeParts;
                             unit' = beforeParts ! (n - 1);
                             quantity' = beforeParts ! (n - 2);
                             presentation' = beforeParts ! (n - 3);
                             name' = join '' '' (take (n - 3) beforeParts)
                         in if name' = [] \<or> presentation' = [] \<or> \<not> all_digits quantity'
                               \<or> unit' = []
                            then None
                            else Some \<lparr>name = trim name',
                                       presentation = trim presentation',
                                       quantity = trim quantity',
                                       unit = trim unit',
                                       extraQualityPrice =
                                         CHR ''$'' # cleanPrice (lastThreePrices ! 0),
                                       firstQualityPrice =
                                         CHR ''$'' # cleanPrice (lastThreePrices ! 1),
                                       unitPrice =
                                         CHR ''$'' # cleanPrice (lastThreePrices ! 2),
                                       previousDayVariation =
                                         or_else (trim variation) ''N/A''\<rparr>)"

definition history_isNewSection :: "string \<Rightarrow> bool" where
  "history_isNewSection line =
     list_ex (\<lambda>pattern. test_anchored_ci pattern line)
       [''p'' @ [CHR 0xE1] @ ''gina'', ''total'', ''resumen'', ''nota'', ''fuente'']"

definition history_process_row :: "scan_state \<Rightarrow> string \<Rightarrow> scan_state" where
  "history_process_row s originalLine =
     (if headerFound s \<and> inTable s then
        if hasHeaderKeyword originalLine \<and> 0 < length (productos s) then s
        else (case history_parseTableRow originalLine of
                Some row \<Rightarrow> s\<lparr>productos := productos s @ [row]\<rparr>
              | None \<Rightarrow>
                  if length originalLine = 0 \<or> history_isNewSection originalLine
                  then s\<lparr>inTable := False\<rparr> else s)
      else s)"

definition history_scan_line :: "scan_state \<Rightarrow> string \<Rightarrow> scan_state" where
  "history_scan_line s originalLine =
     (if hasHeaderKeyword originalLine \<and> \<not> headerFound s then
        (let s1 = s\<lparr>headerLines := headerLines s @ [originalLine]\<rparr>
         in if header_quorum (headerLines s1)
            then s1\<lparr>headerFound := True, inTable := True\<rparr>
            else history_process_row s1 originalLine)
      else if headerFound s \<and> \<not> inTable s
        then history_process_row (s\<lparr>headerLines := []\<rparr>) originalLine
      else history_process_row s originalLine)"

definition history_extractPrices :: "string \<Rightarrow> ProductPrice list" where
  "history_extractPrices text =
     productos (foldl history_scan_line init_state (text_lines text))"

text \<open>
  The handler of the range route, up to the point where it starts on the days. Its two
  inputs are the query parameters \<open>from\<close> and \<open>to\<close>, absent (\<open>null\<close>) or present. The
  \<open>Date\<close> constructor belongs to the runtime: it is the parameter \<open>newDate\<close>, which
  answers the time value of a date string, or nothing for an invalid date (\<open>NaN\<close>). The
  work on the days of a valid range (fetching and parsing each bulletin) is the parameter
  \<open>processRange\<close>; it answers the response together with the list of the documents it
  fetched, so that the second component of the handler's result records every fetch.
\<close>

datatype 'r response = BadRequest string | Success 'r

text \<open>\<open>/^\d{4}-\d{2}-\d{2}$/.test(s)\<close>.\<close>

definition dateRegex :: "string \<Rightarrow> bool" where
  "dateRegex s =
     (length s = 10 \<and> list_all is_digit (take 4 s) \<and> s ! 4 = CHR ''-''
      \<and> list_all is_digit (take 2 (drop 5 s)) \<and> s ! 7 = CHR ''-''
      \<and> list_all is_digit (take 2 (drop 8 s)))"

text \<open>\<open>!param\<close>: the parameter is absent or empty.\<close>

definition falsy :: "string option \<Rightarrow> bool" where
  "falsy p = (case p of None \<Rightarrow> True | Some s \<Rightarrow> s = [])"

definition history_GET ::
  "(string \<Rightarrow> int option) \<Rightarrow> (int \<Rightarrow> int \<Rightarrow> 'r \<times> 'f list) \<Rightarrow>
   string option \<Rightarrow> string option \<Rightarrow> 'r response \<times> 'f list" where
  "history_GET newDate processRange fromParam toParam =
     (if falsy fromParam \<or> falsy toParam then
        (BadRequest (''Both '' @ [CHR 0x22] @ ''from'' @ [CHR 0x22] @ '' and '' @ [CHR 0x22] @ ''to''
           @ [CHR 0x22] @ '' date parameters are required. Format: YYYY-MM-DD''), [])
      else if \<not> dateRegex (the fromParam) \<or> \<not> dateRegex (the toParam) then
        (BadRequest ''Invalid date format. Use YYYY-MM-DD (e.g., 2025-11-20)'', [])
      else
        (case (newDate (the fromParam), newDate (the toParam)) of
           (Some fromDate, Some toDate) \<Rightarrow>
             if toDate < fromDate then
               (BadRequest ([CHR 0x22] @ ''from'' @ [CHR 0x22] @ '' date must be before or equal to ''
                  @ [CHR 0x22] @ ''to'' @ [CHR 0x22] @ '' date''), [])
             else (case processRange fromDate toDate of (r, fetched) \<Rightarrow> (Success r, fetched))
         | _ \<Rightarrow>
             (BadRequest ''Invalid date. Please provide valid dates in format YYYY-MM-DD'', [])))"

section \<open>Notions used to state the properties\<close>

text \<open>
  The valid currency tokens of a line, left to right: the matches of the price pattern
  whose digits number at least four.
\<close>

definition valid_tokens :: "string \<Rightarrow> string list" where
  "valid_tokens line = filter valid_price (price_matches line)"

text \<open>
  The requests that the handler's four tests refuse: a parameter is missing or empty, a
  value does not have the form of \<open>dateRegex\<close>, the \<open>Date\<close> constructor of the runtime
  answers an invalid date (\<open>NaN\<close>) for a value, or \<open>from\<close> is after \<open>to\<close>. The third case is
  the runtime's verdict on the string, which is not the same as the string naming no day
  of the calendar (see \<open>valid_calendar_date\<close> and \<open>newDate_v8\<close> below).
\<close>

definition invalid_range_request ::
  "(string \<Rightarrow> int option) \<Rightarrow> string option \<Rightarrow> string option \<Rightarrow> bool" where
  "invalid_range_request newDate fromParam toParam =
     (case (fromParam, toParam) of
        (Some f, Some t) \<Rightarrow>
          f = [] \<or> t = [] \<or> \<not> dateRegex f \<or> \<not> dateRegex t
          \<or> (case (newDate f, newDate t) of
                (Some fromDate, Some toDate) \<Rightarrow> toDate < fromDate
              | _ \<Rightarrow> True)
      | _ \<Rightarrow> True)"

text \<open>
  Calendar dates. A string of the form \<open>YYYY-MM-DD\<close> names a day of the calendar when its
  month is 1 to 12 and its day is 1 to the length of that month in that year.
\<close>

definition digits_value :: "string \<Rightarrow> int" where
  "digits_value s = foldl (\<lambda>n c. 10 * n + (int (of_char c) - 48)) 0 s"

definition date_fields :: "string \<Rightarrow> int \<times> int \<times> int" where
  "date_fields s =
     (digits_value (take 4 s), digits_value (take 2 (drop 5 s)), digits_value (take 2 (drop 8 s)))"

definition leap_year :: "int \<Rightarrow> bool" where
  "leap_year y = (y mod 4 = 0 \<and> (y mod 100 \<noteq> 0 \<or> y mod 400 = 0))"

definition days_in_month :: "int \<Rightarrow> int \<Rightarrow> int" where
  "days_in_month y m =
     (if m = 2 then (if leap_year y then 29 else 28)
      else if m = 4 \<or> m = 6 \<or> m = 9 \<or> m = 11 then 30 else 31)"

definition valid_calendar_date :: "string \<Rightarrow> bool" where
  "valid_calendar_date s =
     (dateRegex s \<and>
      (case date_fields s of (y, m, d) \<Rightarrow>
         1 \<le> m \<and> m \<le> 12 \<and> 1 \<le> d \<and> d \<le> days_in_month y m))"

text \<open>
  The \<open>Date\<close> constructor of the runtime the routes are served by (Node, whose engine is
  V8), on the strings the handler passes to it, those of the form \<open>YYYY-MM-DD\<close>: the month
  must be 1 to 12 and the day 1 to 31, whatever the month; the time value is that of
  midnight UTC, in milliseconds, of the day reached by counting the day number from the
  first of the month, so that a day past the end of the month runs into the next month.
  Any other month or day gives an invalid date. This is a model of the runtime, not of
  code of the repository; it serves to run the handler on a concrete request.
\<close>

definition day_from_year :: "int \<Rightarrow> int" where
  "day_from_year y =
     365 * (y - 1970) + (y - 1969) div 4 - (y - 1901) div 100 + (y - 1601) div 400"

definition days_before_month :: "int \<Rightarrow> int \<Rightarrow> int" where
  "days_before_month y m = sum_list (map (\<lambda>k. days_in_month y (int k)) [1 ..< nat m])"

definition newDate_v8 :: "string \<Rightarrow> int option" where
  "newDate_v8 s =
     (if dateRegex s then
        (case date_fields s of (y, m, d) \<Rightarrow>
           if 1 \<le> m \<and> m \<le> 12 \<and> 1 \<le> d \<and> d \<le> 31
           then Some ((day_from_year y + days_before_month y m + d - 1) * 86400000)
           else None)
      else None)"

text \<open>
  A stand-in for the work on the days, keeping only what it fetches: the handler walks
  from \<open>fromDate\<close> to \<open>toDate\<close> a day at a time and fetches one bulletin for each day. The
  log holds the time value of each day fetched.
\<close>

definition one_fetch_per_day :: "int \<Rightarrow> int \<Rightarrow> unit \<times> int list" where
  "one_fetch_per_day fromDate toDate =
     ((), map (\<lambda>k. fromDate + int k * 86400000)
            [0 ..< nat ((toDate - fromDate) div 86400000 + 1)])"

text \<open>Lines, texts and records used as concrete inputs.\<close>

definition example_header :: string where
  "example_header = ''Nombre Presentaci'' @ [CHR 0xF3] @ ''n Cantidad Unidad''"

definition example_row1 :: string where
  "example_row1 = ''VALENTON KILO 1 KILO $35,000 $35,000 $35,000 Estable''"

definition example_row2 :: string where
  "example_row2 = ''TOMATE KILO 2 KILO $3,000 $3,100 $3,200''"

definition example_record1 :: ProductPrice where
  "example_record1 =
     \<lparr>name = ''VALENTON'', presentation = ''KILO'', quantity = ''1'', unit = ''KILO'',
      extraQualityPrice = ''$35,000'', firstQualityPrice = ''$35,000'',
      unitPrice = ''$35,000'', previousDayVariation = ''Estable''\<rparr>"

definition example_record2 :: ProductPrice where
  "example_record2 =
     \<lparr>name = ''TOMATE'', presentation = ''KILO'', quantity = ''2'', unit = ''KILO'',
      extraQualityPrice = ''$3,000'', firstQualityPrice = ''$3,100'',
      unitPrice = ''$3,200'', previousDayVariation = ''N/A''\<rparr>"

definition example_text_marker_with_keyword :: string where
  "example_text_marker_with_keyword =
     example_header @ [CHR 0x0A] @ example_row1 @ [CHR 0x0A] @ ''Total precio'' @ [CHR 0x0A]
     @ example_row2"

definition example_text_scattered_header :: string where
  "example_text_scattered_header =
     ''Nombre'' @ [CHR 0x0A] @ ''Bogota'' @ [CHR 0x0A] @ ''Presentaci'' @ [CHR 0xF3] @ ''n''
     @ [CHR 0x0A] @ ''Mercado'' @ [CHR 0x0A] @ ''Cantidad'' @ [CHR 0x0A] @ example_row1"

section \<open>Properties of the string operations\<close>

lemma price_char_not_space: "is_price_char c \<Longrightarrow> \<not> is_space c"
  by (auto simp: is_price_char_def is_space_def is_digit_def)

lemma digit_not_space: "is_digit c \<Longrightarrow> \<not> is_space c"
  by (auto simp: is_space_def is_digit_def)

lemma trim_no_space:
  assumes "\<forall>c \<in> set s. \<not> is_space c"
  shows "trim s = s"
proof -
  have "dropWhile is_space s = s" using assms by (cases s) auto
  moreover have "dropWhile is_space (rev s) = rev s" using assms by (cases "rev s") auto
  ultimately show ?thesis by (simp add: trim_def)
qed






lemma dropWhile_snoc_keeps:
  "\<not> P a \<Longrightarrow> \<exists>zs. dropWhile P (ys @ [a]) = zs @ [a]"
  by (induction ys) auto

lemma dropWhile_trim: "dropWhile is_space (trim s) = trim s"
proof (cases "dropWhile is_space s")
  case Nil
  show ?thesis unfolding trim_def Nil by simp
next
  case (Cons a xs)
  then have a: "\<not> is_space a" by (metis dropWhile_eq_Cons_conv)
  from dropWhile_snoc_keeps [of is_space a "rev xs", OF a] obtain zs
    where "dropWhile is_space (rev xs @ [a]) = zs @ [a]" by blast
  with Cons a show ?thesis by (simp add: trim_def)
qed

lemma trim_idem: "trim (trim s) = trim s"
proof -
  have "trim (trim s) = rev (dropWhile is_space (rev (trim s)))"
    by (simp add: trim_def [of "trim s"] dropWhile_trim)
  also have "rev (trim s) = dropWhile is_space (rev (dropWhile is_space s))"
    by (simp add: trim_def)
  also have "rev (dropWhile is_space (dropWhile is_space (rev (dropWhile is_space s)))) = trim s"
    by (simp add: trim_def dropWhile_idem)
  finally show ?thesis .
qed

lemma startsWith_iff: "startsWith s k \<longleftrightarrow> (\<exists>post. s = k @ post)"
  by (induction k arbitrary: s) (auto split: list.splits)

lemma lastIndexOf_from_startsWith:
  "startsWith s k \<Longrightarrow> lastIndexOf_from s k \<noteq> None"
  by (cases s) (auto simp: startsWith_iff split: option.splits)

lemma lastIndexOf_from_occurs:
  "s = pre @ k @ post \<Longrightarrow> lastIndexOf_from s k \<noteq> None"
proof (induction pre arbitrary: s)
  case Nil
  then have "startsWith s k" by (auto simp: startsWith_iff)
  then show ?case by (rule lastIndexOf_from_startsWith)
next
  case (Cons b bs)
  then show ?case by (auto split: option.splits)
qed

lemma lastIndexOf_from_Some:
  "lastIndexOf_from s k = Some i \<Longrightarrow>
     (\<exists>post. s = take i s @ k @ post) \<and> i \<le> length s \<and>
     (\<forall>pre' post'. s = pre' @ k @ post' \<longrightarrow> length pre' \<le> i)"
proof (induction s arbitrary: i)
  case Nil
  then show ?case by (auto split: if_splits)
next
  case (Cons c cs)
  show ?case
  proof (cases "lastIndexOf_from cs k")
    case (Some j)
    with Cons.prems have i: "i = Suc j" by simp
    from Cons.IH [OF Some] obtain post where
      p: "cs = take j cs @ k @ post" and j: "j \<le> length cs" and
      m: "\<forall>pre' post'. cs = pre' @ k @ post' \<longrightarrow> length pre' \<le> j" by blast
    have "\<forall>pre' post'. c # cs = pre' @ k @ post' \<longrightarrow> length pre' \<le> i"
    proof (intro allI impI)
      fix pre' post' assume e: "c # cs = pre' @ k @ post'"
      show "length pre' \<le> i"
      proof (cases pre')
        case Nil then show ?thesis by simp
      next
        case (Cons a as)
        with e have "cs = as @ k @ post'" by simp
        with m have "length as \<le> j" by blast
        then show ?thesis by (simp add: Cons i)
      qed
    qed
    moreover have "\<exists>post. c # cs = take i (c # cs) @ k @ post"
      using p by (auto simp: i)
    ultimately show ?thesis using j by (simp add: i)
  next
    case None
    with Cons.prems have sw: "startsWith (c # cs) k" and i: "i = 0"
      by (auto split: if_splits)
    have "\<forall>pre' post'. c # cs = pre' @ k @ post' \<longrightarrow> length pre' \<le> i"
    proof (intro allI impI)
      fix pre' post' assume e: "c # cs = pre' @ k @ post'"
      show "length pre' \<le> i"
      proof (cases pre')
        case Nil then show ?thesis by simp
      next
        case (Cons a as)
        with e have cs: "cs = as @ k @ post'" by simp
        have "lastIndexOf_from cs k \<noteq> None"
          using cs by (rule lastIndexOf_from_occurs)
        with None show ?thesis by simp
      qed
    qed
    with sw show ?thesis by (auto simp: i startsWith_iff)
  qed
qed

lemma price_matches_occurs:
  "x \<in> set (price_matches s) \<Longrightarrow> \<exists>pre post. s = pre @ x @ post"
proof (induction s rule: price_matches.induct)
  case 1
  then show ?case by simp
next
  case (2 c cs)
  show ?case
  proof (cases "c = CHR ''$'' \<and> takeWhile is_price_char cs \<noteq> []")
    case True
    with "2.prems" consider "x = c # takeWhile is_price_char cs"
      | "x \<in> set (price_matches (dropWhile is_price_char cs))" by auto
    then show ?thesis
    proof cases
      case 1
      have "c # cs = [] @ x @ dropWhile is_price_char cs" by (simp add: 1)
      then show ?thesis by blast
    next
      case 2
      from "2.IH"(1) [OF True 2] obtain pre post
        where "dropWhile is_price_char cs = pre @ x @ post" by blast
      then have "c # cs = (c # takeWhile is_price_char cs @ pre) @ x @ post"
        by (metis append_Cons append_assoc takeWhile_dropWhile_id)
      then show ?thesis by blast
    qed
  next
    case False
    with "2.prems" have "x \<in> set (price_matches cs)" by auto
    from "2.IH"(2) [OF False this] obtain pre post where "cs = pre @ x @ post" by blast
    then have "c # cs = (c # pre) @ x @ post" by simp
    then show ?thesis by blast
  qed
qed

lemma str_includes_iff: "str_includes s k \<longleftrightarrow> (\<exists>pre post. s = pre @ k @ post)"
proof (induction s)
  case Nil
  then show ?case by auto
next
  case (Cons c cs)
  show ?case
  proof
    assume "str_includes (c # cs) k"
    then consider "startsWith (c # cs) k" | "str_includes cs k" by auto
    then show "\<exists>pre post. c # cs = pre @ k @ post"
    proof cases
      case 1
      then obtain post where "c # cs = [] @ k @ post" by (auto simp: startsWith_iff)
      then show ?thesis by blast
    next
      case 2
      with Cons.IH obtain pre post where "cs = pre @ k @ post" by blast
      then have "c # cs = (c # pre) @ k @ post" by simp
      then show ?thesis by blast
    qed
  next
    assume "\<exists>pre post. c # cs = pre @ k @ post"
    then obtain pre post where e: "c # cs = pre @ k @ post" by blast
    show "str_includes (c # cs) k"
    proof (cases pre)
      case Nil
      with e have "startsWith (c # cs) k" by (auto simp: startsWith_iff)
      then show ?thesis by simp
    next
      case (Cons a as)
      with e have "cs = as @ k @ post" by simp
      with Cons.IH have "str_includes cs k" by blast
      then show ?thesis by simp
    qed
  qed
qed

lemma str_includes_append: "str_includes a k \<Longrightarrow> str_includes (a @ b) k"
proof -
  assume "str_includes a k"
  then obtain pre post where "a = pre @ k @ post" by (auto simp: str_includes_iff)
  then have "a @ b = pre @ k @ (post @ b)" by simp
  then show ?thesis unfolding str_includes_iff by blast
qed

lemma join_snoc: "join sep (hs @ [l]) = (if hs = [] then l else join sep hs @ sep @ l)"
  by (induction sep hs rule: join.induct) auto

lemma filter_length_mono:
  "(\<And>x. x \<in> set xs \<Longrightarrow> P x \<Longrightarrow> Q x) \<Longrightarrow> length (filter P xs) \<le> length (filter Q xs)"
  by (induction xs) auto

section \<open>The price tokens of a line do not depend on its white space\<close>

lemma space_not_price_char: "is_space c \<Longrightarrow> \<not> is_price_char c"
  using price_char_not_space by blast

lemma space_not_dollar: "is_space c \<Longrightarrow> c \<noteq> CHR ''$''"
  by (auto simp: is_space_def)

lemma blank_not_price_char: "\<not> is_price_char (CHR '' '')"
  by (simp add: is_price_char_def is_digit_def)

lemma price_matches_dropWhile_space:
  "price_matches (dropWhile is_space s) = price_matches s"
  by (induction s) (auto dest: space_not_dollar)

lemma takeWhile_price_collapse:
  "takeWhile is_price_char (collapse_ws s) = takeWhile is_price_char s"
  by (induction s rule: collapse_ws.induct)
    (auto simp: blank_not_price_char dest: space_not_price_char)

lemma dropWhile_price_collapse:
  "dropWhile is_price_char (collapse_ws s) = collapse_ws (dropWhile is_price_char s)"
  by (induction s rule: collapse_ws.induct)
    (auto simp: blank_not_price_char dest: space_not_price_char price_char_not_space)

lemma price_matches_collapse: "price_matches (collapse_ws s) = price_matches s"
proof (induction s rule: length_induct)
  case (1 s)
  show ?case
  proof (cases s)
    case Nil
    then show ?thesis by simp
  next
    case (Cons c cs)
    show ?thesis
    proof (cases "is_space c")
      case True
      have "length (dropWhile is_space cs) < length s"
        by (simp add: Cons less_Suc_eq_le length_dropWhile_le)
      with 1 have "price_matches (collapse_ws (dropWhile is_space cs))
          = price_matches (dropWhile is_space cs)" by blast
      then show ?thesis using True
        by (simp add: Cons price_matches_dropWhile_space space_not_dollar)
    next
      case False
      have cs: "price_matches (collapse_ws cs) = price_matches cs"
        using 1 by (simp add: Cons)
      have "length (dropWhile is_price_char cs) < length s"
        by (simp add: Cons less_Suc_eq_le length_dropWhile_le)
      with 1 have "price_matches (collapse_ws (dropWhile is_price_char cs))
          = price_matches (dropWhile is_price_char cs)" by blast
      then show ?thesis using False cs
        by (simp add: Cons takeWhile_price_collapse dropWhile_price_collapse)
    qed
  qed
qed

lemma takeWhile_price_spaces:
  "\<forall>c \<in> set ws. is_space c \<Longrightarrow> takeWhile is_price_char (cs @ ws) = takeWhile is_price_char cs"
  by (induction cs) (auto simp: takeWhile_eq_Nil_iff dest: space_not_price_char)

lemma dropWhile_price_spaces:
  "\<forall>c \<in> set ws. is_space c \<Longrightarrow>
     dropWhile is_price_char (cs @ ws) = dropWhile is_price_char cs @ ws"
  by (induction cs) (auto simp: dropWhile_eq_self_iff dest: space_not_price_char)

lemma price_matches_spaces: "\<forall>c \<in> set ws. is_space c \<Longrightarrow> price_matches ws = []"
  by (induction ws) (auto dest: space_not_dollar)

lemma price_matches_trailing_spaces:
  "\<forall>c \<in> set ws. is_space c \<Longrightarrow> price_matches (a @ ws) = price_matches a"
proof (induction a rule: price_matches.induct)
  case 1
  then show ?case by (simp add: price_matches_spaces)
next
  case (2 c cs)
  then show ?case
    by (simp add: takeWhile_price_spaces dropWhile_price_spaces)
qed

lemma price_matches_trim: "price_matches (trim s) = price_matches s"
proof -
  let ?d = "dropWhile is_space s"
  have "rev (dropWhile is_space (rev ?d)) @ rev (takeWhile is_space (rev ?d)) = ?d"
    by (metis rev_append rev_rev_ident takeWhile_dropWhile_id)
  moreover have "\<forall>c \<in> set (rev (takeWhile is_space (rev ?d))). is_space c"
    by (auto dest: set_takeWhileD)
  ultimately have "price_matches (rev (dropWhile is_space (rev ?d))) = price_matches ?d"
    by (metis price_matches_trailing_spaces)
  then show ?thesis by (simp add: trim_def price_matches_dropWhile_space)
qed

lemma price_matches_normalize: "price_matches (normalize_line line) = price_matches line"
  by (simp add: normalize_line_def price_matches_trim price_matches_collapse)

section \<open>The row parser: claims C1 to C3\<close>

lemma parseTableRow_SomeD:
  assumes "parseTableRow line = Some r"
  shows "3 \<le> length (valid_tokens line)"
    and "extraQualityPrice r = CHR ''$'' # cleanPrice (slice_last3 (valid_tokens line) ! 0)"
    and "firstQualityPrice r = CHR ''$'' # cleanPrice (slice_last3 (valid_tokens line) ! 1)"
    and "unitPrice r = CHR ''$'' # cleanPrice (slice_last3 (valid_tokens line) ! 2)"
  using assms
  by (auto simp: parseTableRow_def valid_tokens_def match_prices_def Let_def
      price_matches_normalize split: list.splits if_splits option.splits)






text \<open>
  A second refusal, of another kind. When the price-like number in the name is written
  like the first of the three prices, \<open>indexOf\<close> finds the text of that price in the name,
  the region before it holds the single word \<open>LOTE\<close>, and the line is refused for having
  fewer than four parts before the prices.
\<close>

lemma parseTableRow_repeated_token_refused:
  "valid_tokens ''LOTE $1,000 BULTO 1 KILO $1,000 $2,000 $3,000''
     = [''$1,000'', ''$1,000'', ''$2,000'', ''$3,000'']
   \<and> indexOf ''LOTE $1,000 BULTO 1 KILO $1,000 $2,000 $3,000'' ''$1,000'' = 5
   \<and> parseTableRow ''LOTE $1,000 BULTO 1 KILO $1,000 $2,000 $3,000'' = None"
  by code_simp

text \<open>
  Claim C2. A line with fewer than three valid currency tokens (tokens whose digits,
  once the dollar sign, commas and periods are removed, number at least four) gives no
  record: the row parser answers \<open>null\<close>. The tokens are those of the line as it is
  given; by \<open>price_matches_normalize\<close> they are also those of the normalized line, on
  which the parser looks for them.
\<close>

theorem parseTableRow_too_few_prices:
  assumes "length (valid_tokens line) < 3"
  shows "parseTableRow line = None"
  using assms
  by (auto simp: parseTableRow_def valid_tokens_def match_prices_def Let_def
      price_matches_normalize split: list.splits option.splits)

theorem parseTableRow_too_few_prices_witness:
  "length (valid_tokens ''PAPA KILO 1 KILO $3,000 $3,100 $320'') < 3
   \<and> parseTableRow ''PAPA KILO 1 KILO $3,000 $3,100 $320'' = None"
proof -
  have v: "length (valid_tokens ''PAPA KILO 1 KILO $3,000 $3,100 $320'') < 3"
    by code_simp
  from parseTableRow_too_few_prices [OF v] v show ?thesis by simp
qed

lemma parseTableRow_SomeD_rest:
  assumes "parseTableRow line = Some r"
  shows "\<exists>q. quantity r = trim q \<and> all_digits q"
    and "previousDayVariation r =
           or_else (trim (or_else (trim (substring_from (normalize_line line)
             (lastIndexOf (normalize_line line) (slice_last3 (valid_tokens line) ! 2)
               + int (length (slice_last3 (valid_tokens line) ! 2))))) [])) ''N/A''"
  using assms
  by (auto simp: parseTableRow_def valid_tokens_def match_prices_def Let_def
      price_matches_normalize split: list.splits if_splits option.splits)

lemma all_digits_trim: "all_digits q \<Longrightarrow> trim q = q"
  by (rule trim_no_space) (auto simp: all_digits_def list_all_iff dest: digit_not_space)

lemma slice_last3_last: "3 \<le> length xs \<Longrightarrow> slice_last3 xs ! 2 = last xs"
proof -
  assume l: "3 \<le> length xs"
  then have "slice_last3 xs ! 2 = xs ! (length xs - 3 + 2)"
    by (simp add: slice_last3_def)
  also have "length xs - 3 + 2 = length xs - 1" using l by arith
  also have "xs ! (length xs - 1) = last xs" using l by (cases xs rule: rev_cases) auto
  finally show ?thesis .
qed

lemma substring_from_after:
  assumes "lastIndexOf_from s k = Some i"
  shows "s = take i s @ k @ substring_from s (lastIndexOf s k + int (length k))"
proof -
  from lastIndexOf_from_Some [OF assms] obtain post
    where p: "s = take i s @ k @ post" and i: "i \<le> length s" by blast
  have len: "length s = i + length k + length post"
  proof -
    have "length s = length (take i s @ k @ post)" using p by simp
    then show ?thesis using i by simp
  qed
  have "drop (i + length k) s = drop (i + length k) (take i s @ k @ post)" using p by simp
  also have "\<dots> = post" using i by simp
  finally have "substring_from s (lastIndexOf s k + int (length k)) = post"
    using len by (simp add: substring_from_def lastIndexOf_def assms clamp_index_def nat_add_distrib)
  with p show ?thesis by simp
qed

text \<open>
  Claim C3. In every record the row parser produces, \<open>quantity\<close> is a non-empty string of
  digits (it matches \<open>^\d+$\<close>), each of the three price fields begins with a dollar sign,
  and \<open>previousDayVariation\<close> is the trimmed text after the last occurrence of the last
  valid price token in the normalized line, or \<open>N/A\<close> when that text is empty.
\<close>

theorem parseTableRow_record_shape:
  assumes "parseTableRow line = Some r"
  shows "all_digits (quantity r)
       \<and> take 1 (extraQualityPrice r) = ''$''
       \<and> take 1 (firstQualityPrice r) = ''$''
       \<and> take 1 (unitPrice r) = ''$''
       \<and> (\<exists>pre post.
            normalize_line line = pre @ last (valid_tokens line) @ post
          \<and> (\<forall>pre' post'. normalize_line line = pre' @ last (valid_tokens line) @ post'
                \<longrightarrow> length pre' \<le> length pre)
          \<and> previousDayVariation r = (if trim post = [] then ''N/A'' else trim post))"
proof -
  let ?n = "normalize_line line" and ?tok = "last (valid_tokens line)"
  note d = parseTableRow_SomeD [OF assms] and e = parseTableRow_SomeD_rest [OF assms]
  from e(1) have q: "all_digits (quantity r)" by (auto simp: all_digits_trim)
  have l3: "slice_last3 (valid_tokens line) ! 2 = ?tok" using d(1) by (rule slice_last3_last)
  have "valid_tokens line \<noteq> []" using d(1) by auto
  then have "?tok \<in> set (valid_tokens line)" by simp
  then have "?tok \<in> set (price_matches ?n)"
    by (simp add: valid_tokens_def price_matches_normalize)
  then obtain pre0 post0 where "?n = pre0 @ ?tok @ post0"
    using price_matches_occurs by blast
  then have "lastIndexOf_from ?n ?tok \<noteq> None" by (rule lastIndexOf_from_occurs)
  then obtain i where i: "lastIndexOf_from ?n ?tok = Some i" by blast
  define post where "post = substring_from ?n (lastIndexOf ?n ?tok + int (length ?tok))"
  have dec: "?n = take i ?n @ ?tok @ post"
    unfolding post_def using i by (rule substring_from_after)
  have "i \<le> length ?n" using lastIndexOf_from_Some [OF i] by blast
  then have li: "length (take i ?n) = i" by simp
  have mx: "\<forall>pre' post'. ?n = pre' @ ?tok @ post' \<longrightarrow> length pre' \<le> length (take i ?n)"
    using lastIndexOf_from_Some [OF i] li by simp
  have var: "previousDayVariation r = (if trim post = [] then ''N/A'' else trim post)"
    using e(2) by (simp add: l3 post_def or_else_def trim_idem)
  have "\<exists>pre post.
            ?n = pre @ ?tok @ post
          \<and> (\<forall>pre' post'. ?n = pre' @ ?tok @ post' \<longrightarrow> length pre' \<le> length pre)
          \<and> previousDayVariation r = (if trim post = [] then ''N/A'' else trim post)"
    using dec mx var by blast
  with q d(2-4) show ?thesis by simp
qed

theorem parseTableRow_record_shape_witness:
  "parseTableRow ''TOMATE KILO 2 KILO $3,000 $3,100 $3,200''
     = Some \<lparr>name = ''TOMATE'', presentation = ''KILO'', quantity = ''2'', unit = ''KILO'',
              extraQualityPrice = ''$3,000'', firstQualityPrice = ''$3,100'',
              unitPrice = ''$3,200'', previousDayVariation = ''N/A''\<rparr>
   \<and> all_digits ''2''
   \<and> (\<exists>pre post.
          normalize_line ''TOMATE KILO 2 KILO $3,000 $3,100 $3,200''
            = pre @ last (valid_tokens ''TOMATE KILO 2 KILO $3,000 $3,100 $3,200'') @ post
        \<and> ''N/A'' = (if trim post = [] then ''N/A'' else trim post))"
proof -
  have p: "parseTableRow ''TOMATE KILO 2 KILO $3,000 $3,100 $3,200''
     = Some \<lparr>name = ''TOMATE'', presentation = ''KILO'', quantity = ''2'', unit = ''KILO'',
              extraQualityPrice = ''$3,000'', firstQualityPrice = ''$3,100'',
              unitPrice = ''$3,200'', previousDayVariation = ''N/A''\<rparr>"
    by code_simp
  from parseTableRow_record_shape [OF p] obtain pre post
    where a: "normalize_line ''TOMATE KILO 2 KILO $3,000 $3,100 $3,200''
                = pre @ last (valid_tokens ''TOMATE KILO 2 KILO $3,000 $3,100 $3,200'') @ post"
      and b: "''N/A'' = (if trim post = [] then ''N/A'' else trim post)"
      and c: "all_digits ''2''"
    by (simp split del: if_split) blast
  from a b have "\<exists>pre post.
          normalize_line ''TOMATE KILO 2 KILO $3,000 $3,100 $3,200''
            = pre @ last (valid_tokens ''TOMATE KILO 2 KILO $3,000 $3,100 $3,200'') @ post
        \<and> ''N/A'' = (if trim post = [] then ''N/A'' else trim post)" by blast
  with p c show ?thesis by blast
qed

section \<open>The table scanner: claims C4, C5, C6 and C10\<close>

lemma header_quorum_Nil: "\<not> header_quorum []"
  by (simp add: header_quorum_def foundRequiredWords_def toLowerCase_def requiredHeaderWords_def)

lemma header_quorum_mono:
  assumes "header_quorum hs"
  shows "header_quorum (hs @ [l])"
proof -
  from assms have ne: "hs \<noteq> []" using header_quorum_Nil by auto
  have "length (foundRequiredWords hs) \<le> length (foundRequiredWords (hs @ [l]))"
    unfolding foundRequiredWords_def
    by (rule filter_length_mono)
      (simp add: join_snoc ne toLowerCase_def str_includes_append)
  with assms show ?thesis by (simp add: header_quorum_def)
qed

lemma scan_snoc: "scan s (ls @ [l]) = scan_line (scan s ls) l"
  by (simp add: scan_def)

lemma process_row_searching: "\<not> headerFound s \<Longrightarrow> process_row s l = s"
  by (simp add: process_row_def)

lemma scan_before_quorum:
  "\<not> header_quorum (filter hasHeaderKeyword ls) \<Longrightarrow>
     scan init_state ls = init_state\<lparr>headerLines := filter hasHeaderKeyword ls\<rparr>"
proof (induction ls rule: rev_induct)
  case Nil
  then show ?case by (simp add: scan_def init_state_def)
next
  case (snoc x xs)
  let ?kl = "filter hasHeaderKeyword xs"
  show ?case
  proof (cases "hasHeaderKeyword x")
    case True
    with snoc.prems have nq: "\<not> header_quorum (?kl @ [x])" by simp
    then have "\<not> header_quorum ?kl" using header_quorum_mono by blast
    with snoc.IH have "scan init_state xs = init_state\<lparr>headerLines := ?kl\<rparr>" by simp
    then show ?thesis using True nq
      by (simp add: scan_snoc scan_line_def init_state_def process_row_searching)
  next
    case False
    with snoc.prems have "\<not> header_quorum ?kl" by simp
    with snoc.IH have "scan init_state xs = init_state\<lparr>headerLines := ?kl\<rparr>" by simp
    then show ?thesis using False
      by (simp add: scan_snoc scan_line_def init_state_def process_row_searching)
  qed
qed

text \<open>
  Claim C4. The scanner starts at the first line. As long as the keyword-bearing lines
  seen so far do not hold three of the four required words, they are all kept in the
  buffer, whatever lines stand between them. The keyword-bearing line whose arrival
  makes the lower-cased concatenation of the buffer hold three of the four words turns
  the header on and opens the table; that line joins the buffer and is not parsed as a
  row, so no record exists yet. The required words may come one per line.
\<close>

theorem header_found_at_quorum:
  assumes "\<not> header_quorum (filter hasHeaderKeyword ls)"
    and "hasHeaderKeyword l"
    and "header_quorum (filter hasHeaderKeyword ls @ [l])"
  shows "scan init_state (ls @ [l])
         = \<lparr>inTable = True, headerFound = True,
            headerLines = filter hasHeaderKeyword ls @ [l], productos = []\<rparr>"
  using assms(2,3) scan_before_quorum [OF assms(1)]
  by (simp add: scan_snoc scan_line_def init_state_def)

theorem header_found_at_quorum_witness:
  "\<not> header_quorum (filter hasHeaderKeyword [''Nombre'', ''Presentaci'' @ [CHR 0xF3] @ ''n''])
   \<and> hasHeaderKeyword ''Cantidad KILO 1 KILO $1,000 $1,000 $1,000''
   \<and> header_quorum (filter hasHeaderKeyword [''Nombre'', ''Presentaci'' @ [CHR 0xF3] @ ''n'']
         @ [''Cantidad KILO 1 KILO $1,000 $1,000 $1,000''])
   \<and> parseTableRow ''Cantidad KILO 1 KILO $1,000 $1,000 $1,000'' \<noteq> None
   \<and> scan init_state ([''Nombre'', ''Presentaci'' @ [CHR 0xF3] @ ''n'']
         @ [''Cantidad KILO 1 KILO $1,000 $1,000 $1,000''])
       = \<lparr>inTable = True, headerFound = True,
          headerLines = filter hasHeaderKeyword [''Nombre'', ''Presentaci'' @ [CHR 0xF3] @ ''n'']
            @ [''Cantidad KILO 1 KILO $1,000 $1,000 $1,000''],
          productos = []\<rparr>"
proof -
  have a: "\<not> header_quorum (filter hasHeaderKeyword
             [''Nombre'', ''Presentaci'' @ [CHR 0xF3] @ ''n''])"
    by code_simp
  have b: "hasHeaderKeyword ''Cantidad KILO 1 KILO $1,000 $1,000 $1,000''"
    by code_simp
  have c: "header_quorum (filter hasHeaderKeyword [''Nombre'', ''Presentaci'' @ [CHR 0xF3] @ ''n'']
         @ [''Cantidad KILO 1 KILO $1,000 $1,000 $1,000''])"
    by code_simp
  have d: "parseTableRow ''Cantidad KILO 1 KILO $1,000 $1,000 $1,000'' \<noteq> None"
    by code_simp
  from header_found_at_quorum [OF a b c] a b c d show ?thesis by (intro conjI)
qed

lemma scan_line_keeps_invariant:
  "inTable s \<longrightarrow> headerFound s \<Longrightarrow> inTable (scan_line s l) \<longrightarrow> headerFound (scan_line s l)"
  by (auto simp: scan_line_def process_row_def Let_def split: option.splits if_splits)

lemma inTable_headerFound: "inTable (scan init_state ls) \<longrightarrow> headerFound (scan init_state ls)"
proof (induction ls rule: rev_induct)
  case Nil
  then show ?case by (simp add: scan_def init_state_def)
next
  case (snoc x xs)
  show ?case unfolding scan_snoc by (rule scan_line_keeps_invariant) (rule snoc)
qed

lemma scan_line_closed:
  "headerFound s \<Longrightarrow> \<not> inTable s \<Longrightarrow> scan_line s l = s\<lparr>headerLines := []\<rparr>"
  by (simp add: scan_line_def process_row_def)

lemma scan_closed:
  "headerFound s \<Longrightarrow> \<not> inTable s \<Longrightarrow>
     productos (scan s rest) = productos s \<and> \<not> inTable (scan s rest)"
proof (induction rest arbitrary: s)
  case Nil
  then show ?case by (simp add: scan_def)
next
  case (Cons x xs)
  have "scan s (x # xs) = scan (s\<lparr>headerLines := []\<rparr>) xs"
    using Cons.prems by (simp add: scan_def scan_line_closed)
  moreover have "productos (scan (s\<lparr>headerLines := []\<rparr>) xs) = productos (s\<lparr>headerLines := []\<rparr>)
      \<and> \<not> inTable (scan (s\<lparr>headerLines := []\<rparr>) xs)"
    using Cons.prems by (intro Cons.IH) simp_all
  ultimately show ?case by simp
qed

text \<open>
  Claim C6, as amended. When the scanner is in the table and meets a line that is not
  skipped as a repeated header (it has no header keyword, or no record has been produced
  yet), that the row parser refuses and that starts with an end-of-section marker, the
  table is closed, and whatever lines follow, the records stay those produced before
  that line.
\<close>

theorem marker_closes_table:
  assumes "inTable (scan init_state pre)"
    and "\<not> (hasHeaderKeyword l \<and> productos (scan init_state pre) \<noteq> [])"
    and "parseTableRow l = None"
    and "isNewSection l"
  shows "\<not> inTable (scan init_state (pre @ [l]))
       \<and> productos (scan init_state (pre @ l # rest)) = productos (scan init_state pre)"
proof -
  let ?s = "scan init_state pre"
  have hf: "headerFound ?s" using assms(1) inTable_headerFound by blast
  have step: "scan_line ?s l = ?s\<lparr>inTable := False\<rparr>"
    using assms hf by (auto simp: scan_line_def process_row_def)
  have "scan init_state (pre @ l # rest) = scan (scan_line ?s l) rest"
    by (simp add: scan_def)
  moreover have "productos (scan (?s\<lparr>inTable := False\<rparr>) rest) = productos (?s\<lparr>inTable := False\<rparr>)"
    using hf scan_closed [of "?s\<lparr>inTable := False\<rparr>" rest] by simp
  ultimately have "productos (scan init_state (pre @ l # rest)) = productos ?s"
    by (simp add: step)
  moreover have "\<not> inTable (scan init_state (pre @ [l]))"
    by (simp add: scan_snoc step)
  ultimately show ?thesis by simp
qed

theorem marker_closes_table_witness:
  "inTable (scan init_state [example_header, example_row1])
   \<and> \<not> (hasHeaderKeyword ''Total'' \<and> productos (scan init_state [example_header, example_row1]) \<noteq> [])
   \<and> parseTableRow ''Total'' = None
   \<and> isNewSection ''Total''
   \<and> productos (scan init_state [example_header, example_row1]) = [example_record1]
   \<and> productos (scan init_state ([example_header, example_row1] @ ''Total'' # [example_row2]))
       = [example_record1]"
proof -
  have a: "inTable (scan init_state [example_header, example_row1])" by code_simp
  have b: "\<not> (hasHeaderKeyword ''Total''
              \<and> productos (scan init_state [example_header, example_row1]) \<noteq> [])"
    by code_simp
  have c: "parseTableRow ''Total'' = None" by code_simp
  have d: "isNewSection ''Total''" by code_simp
  have e: "productos (scan init_state [example_header, example_row1]) = [example_record1]"
    by code_simp
  from marker_closes_table [OF a b c d, of "[example_row2]"] a b c d e show ?thesis by simp
qed

text \<open>
  Claim C6 as stated fails. After a header and one row, the line \<open>Total precio\<close> is
  refused by the row parser and starts with the marker \<open>total\<close>; it also holds the header
  keyword \<open>precio\<close>, so the scanner skips it as a repeated header before the marker is
  looked at. The table stays open and the next row is emitted.
\<close>

theorem marker_line_with_keyword_counterexample:
  "inTable (scan init_state [example_header, example_row1])
   \<and> parseTableRow ''Total precio'' = None
   \<and> isNewSection ''Total precio''
   \<and> inTable (scan init_state [example_header, example_row1, ''Total precio''])
   \<and> productos (scan init_state [example_header, example_row1, ''Total precio''])
       = [example_record1]
   \<and> productos (scan init_state [example_header, example_row1, ''Total precio'', example_row2])
       = [example_record1, example_record2]
   \<and> text_lines example_text_marker_with_keyword
       = [example_header, example_row1, ''Total precio'', example_row2]
   \<and> extractPrices example_text_marker_with_keyword = [example_record1, example_record2]"
  by code_simp

text \<open>
  Claim C5 against the code. The lines \<open>Bogota\<close> and \<open>Mercado\<close> hold no header keyword
  and stand between the keyword-bearing lines \<open>Nombre\<close>, \<open>Presentacion\<close> (with its accent) and
  \<open>Cantidad\<close>. The buffer is not emptied at them: the branch that empties it is taken
  only once the header has been found and the table closed. The three words are counted
  together, the header is found at \<open>Cantidad\<close> and the row after it is emitted.
\<close>

theorem buffer_kept_across_keyword_free_lines:
  "\<not> hasHeaderKeyword ''Bogota'' \<and> \<not> hasHeaderKeyword ''Mercado''
   \<and> scan init_state [''Nombre'', ''Bogota'', ''Presentaci'' @ [CHR 0xF3] @ ''n'', ''Mercado'']
       = \<lparr>inTable = False, headerFound = False,
          headerLines = [''Nombre'', ''Presentaci'' @ [CHR 0xF3] @ ''n''], productos = []\<rparr>
   \<and> text_lines example_text_scattered_header
       = [''Nombre'', ''Bogota'', ''Presentaci'' @ [CHR 0xF3] @ ''n'', ''Mercado'', ''Cantidad'',
          example_row1]
   \<and> extractPrices example_text_scattered_header = [example_record1]"
  by code_simp

lemma text_lines_nonempty: "l \<in> set (text_lines text) \<Longrightarrow> l \<noteq> []"
  by (auto simp: text_lines_def)

lemma process_row_closes:
  assumes "inTable s" and "\<not> inTable (process_row s l)"
  shows "parseTableRow l = None \<and> (length l = 0 \<or> isNewSection l)"
  using assms by (auto simp: process_row_def split: if_splits option.splits)

lemma scan_line_closes:
  assumes "inTable s" and "\<not> inTable (scan_line s l)"
  shows "parseTableRow l = None \<and> (length l = 0 \<or> isNewSection l)"
proof -
  from assms have "\<not> inTable (process_row s l)
      \<or> \<not> inTable (process_row (s\<lparr>headerLines := headerLines s @ [l]\<rparr>) l)
      \<or> \<not> inTable (process_row (s\<lparr>headerLines := []\<rparr>) l)"
    by (auto simp: scan_line_def Let_def split: if_splits)
  with assms(1) show ?thesis
    using process_row_closes [of s l]
      process_row_closes [of "s\<lparr>headerLines := headerLines s @ [l]\<rparr>" l]
      process_row_closes [of "s\<lparr>headerLines := []\<rparr>" l]
    by auto
qed

text \<open>
  Claim C10. Every line the scanner examines is a line of \<open>text_lines\<close>, hence not empty;
  so whenever the scan of such a line takes the scanner out of the table, the line
  starts with an end-of-section marker: the empty-line half of the closing test is never
  what closes the table.
\<close>

theorem scanned_lines_nonempty_close_by_marker:
  assumes "l \<in> set (text_lines text)"
  shows "l \<noteq> [] \<and> (\<forall>s. inTable s \<and> \<not> inTable (scan_line s l) \<longrightarrow> isNewSection l)"
proof -
  have ne: "l \<noteq> []" using assms by (rule text_lines_nonempty)
  have "isNewSection l" if "inTable s" "\<not> inTable (scan_line s l)" for s
    using scan_line_closes [OF that] ne by simp
  with ne show ?thesis by blast
qed

theorem scanned_lines_nonempty_close_by_marker_witness:
  "''Total'' \<in> set (text_lines (''Nombre'' @ [CHR 0x0A] @ ''   '' @ [CHR 0x0A] @ '' Total ''))
   \<and> ''Total'' \<noteq> []
   \<and> inTable \<lparr>inTable = True, headerFound = True, headerLines = [''Nombre''], productos = []\<rparr>
   \<and> \<not> inTable (scan_line
          \<lparr>inTable = True, headerFound = True, headerLines = [''Nombre''], productos = []\<rparr>
          ''Total'')
   \<and> isNewSection ''Total''"
proof -
  let ?s = "\<lparr>inTable = True, headerFound = True, headerLines = [''Nombre''], productos = []\<rparr>"
  have m: "''Total'' \<in> set (text_lines (''Nombre'' @ [CHR 0x0A] @ ''   '' @ [CHR 0x0A] @ '' Total ''))"
    by code_simp
  have c: "inTable ?s \<and> \<not> inTable (scan_line ?s ''Total'')"
    by code_simp
  from scanned_lines_nonempty_close_by_marker [OF m]
  have ne: "''Total'' \<noteq> []"
    and cl: "\<forall>s. inTable s \<and> \<not> inTable (scan_line s ''Total'') \<longrightarrow> isNewSection ''Total''"
    by (rule conjunct1, rule conjunct2)
  from cl have "inTable ?s \<and> \<not> inTable (scan_line ?s ''Total'') \<longrightarrow> isNewSection ''Total''"
    by (rule spec)
  then have n: "isNewSection ''Total''" using c by (rule mp)
  from m ne c n show ?thesis by (intro conjI) (erule conjunct1 conjunct2 | assumption)+
qed

section \<open>The date helper: claim C7\<close>

text \<open>
  Claim C7 against the code. The text \<open>20 de noviembre de 2025\<close> matches the third
  pattern, with groups 20, noviembre and 2025, and the helper still answers \<open>null\<close>: the
  loop body has a branch for the first and for the second pattern only. A match of the
  second pattern is returned as written, single digits included.
\<close>

theorem extractDate_long_form_dropped:
  "first_match long_here ''20 de noviembre de 2025'' = Some (''20'', ''noviembre'', ''2025'')
   \<and> extractDate ''20 de noviembre de 2025'' = None
   \<and> extractDate ''Fecha 2025-1-5'' = Some ''2025-1-5''"
  by code_simp

section \<open>The range route: claims C8 and C9\<close>

text \<open>
  Claim C8, as amended. A request of the range route with a missing parameter, a value
  that does not match \<open>^\d{4}-\d{2}-\d{2}$\<close>, a value for which the \<open>Date\<close> constructor of
  the runtime answers an invalid date, or \<open>from\<close> after \<open>to\<close> is answered with an error
  message and status 400, and nothing has been fetched: the work on the days, which
  alone fetches and parses documents, is not started. This holds for every runtime and
  every way of working on the days.
\<close>

theorem invalid_range_rejected_before_fetch:
  assumes "invalid_range_request newDate fromParam toParam"
  shows "\<exists>msg. history_GET newDate processRange fromParam toParam = (BadRequest msg, [])"
  using assms
  by (auto simp: invalid_range_request_def history_GET_def falsy_def
      split: option.splits prod.splits if_splits)

theorem invalid_range_rejected_before_fetch_witness:
  "(invalid_range_request newDate_v8 None (Some ''2025-11-21'')
      \<and> (\<exists>msg. history_GET newDate_v8 one_fetch_per_day None (Some ''2025-11-21'')
             = (BadRequest msg, [])))
   \<and> (invalid_range_request newDate_v8 (Some ''2025/11/20'') (Some ''2025-11-21'')
      \<and> (\<exists>msg. history_GET newDate_v8 one_fetch_per_day (Some ''2025/11/20'')
             (Some ''2025-11-21'') = (BadRequest msg, [])))
   \<and> (invalid_range_request newDate_v8 (Some ''2025-13-01'') (Some ''2025-12-31'')
      \<and> (\<exists>msg. history_GET newDate_v8 one_fetch_per_day (Some ''2025-13-01'')
             (Some ''2025-12-31'') = (BadRequest msg, [])))
   \<and> (invalid_range_request newDate_v8 (Some ''2025-11-21'') (Some ''2025-11-20'')
      \<and> (\<exists>msg. history_GET newDate_v8 one_fetch_per_day (Some ''2025-11-21'')
             (Some ''2025-11-20'') = (BadRequest msg, [])))"
proof -
  have a: "invalid_range_request newDate_v8 None (Some ''2025-11-21'')"
    by code_simp
  have b: "invalid_range_request newDate_v8 (Some ''2025/11/20'') (Some ''2025-11-21'')"
    by code_simp
  have c: "invalid_range_request newDate_v8 (Some ''2025-13-01'') (Some ''2025-12-31'')"
    by code_simp
  have d: "invalid_range_request newDate_v8 (Some ''2025-11-21'') (Some ''2025-11-20'')"
    by code_simp
  note r = invalid_range_rejected_before_fetch [where processRange = one_fetch_per_day]
  from a r [OF a] b r [OF b] c r [OF c] d r [OF d] show ?thesis by (intro conjI)
qed

text \<open>
  Claim C8 as stated fails for an invalid calendar date that the runtime accepts. The
  thirtieth of February 2025 is no day of the calendar; the runtime reads it as the
  second of March, so the handler's test for an invalid date passes, the request is not
  refused, and the four days from the second to the fifth of March are fetched.
\<close>

theorem invalid_calendar_date_accepted_counterexample:
  "dateRegex ''2025-02-30''
   \<and> \<not> valid_calendar_date ''2025-02-30''
   \<and> newDate_v8 ''2025-02-30'' = newDate_v8 ''2025-03-02''
   \<and> history_GET newDate_v8 one_fetch_per_day (Some ''2025-02-30'') (Some ''2025-03-05'')
       = (Success (), [1740873600000, 1740960000000, 1741046400000, 1741132800000])"
  by code_simp

text \<open>
  Claim C9. The copy of the table core in the range route computes the same function as
  the one in the single-day route: the same records for every text, the same row for
  every line, the same verdict on every line for the end-of-section test.
\<close>

theorem history_core_equal:
  "history_extractPrices text = extractPrices text
   \<and> history_parseTableRow line = parseTableRow line
   \<and> history_isNewSection line = isNewSection line"
proof -
  have v: "valid_price = (\<lambda>price. 4 \<le> length (digitsOnly price))"
    by (rule ext) (simp add: valid_price_def)
  have p: "history_parseTableRow = parseTableRow"
    by (rule ext) (simp only: history_parseTableRow_def parseTableRow_def normalize_line_def v)
  have n: "history_isNewSection = isNewSection"
    by (rule ext) (simp add: history_isNewSection_def isNewSection_def sectionIndicators_def)
  have r: "history_process_row = process_row"
    by (intro ext) (simp only: history_process_row_def process_row_def p n)
  have "history_scan_line = scan_line"
    by (intro ext) (simp only: history_scan_line_def scan_line_def r)
  then have "history_extractPrices text = extractPrices text"
    by (simp add: history_extractPrices_def extractPrices_def scan_def)
  with p n show ?thesis by simp
qed

theorem history_core_equal_witness:
  "history_extractPrices (example_header @ [CHR 0x0A] @ example_row1) =
     extractPrices (example_header @ [CHR 0x0A] @ example_row1)
   \<and> history_parseTableRow example_row1 = parseTableRow example_row1
   \<and> history_isNewSection ''Total'' = isNewSection ''Total''"
proof -
  have "history_extractPrices (example_header @ [CHR 0x0A] @ example_row1) =
     extractPrices (example_header @ [CHR 0x0A] @ example_row1)"
    using history_core_equal [of "example_header @ [CHR 0x0A] @ example_row1" example_row1]
    by (rule conjunct1)
  moreover have "history_parseTableRow example_row1 = parseTableRow example_row1
     \<and> history_isNewSection ''Total'' = isNewSection ''Total''"
    using history_core_equal [of "[]" example_row1] history_core_equal [of "[]" "''Total''"]
    by (intro conjI) (erule conjE, erule conjE, assumption)+
  ultimately show ?thesis by (rule conjI)
qed

end
